theory Spec2Isabelle
  imports Main "HOL-Library.Multiset" "HOL-Library.Char_ord" "HOL-Library.List_Lexorder"
begin

section \<open>Data model of \<open>src/Components/Message.tsx\<close>\<close>

text \<open>
  The component keeps its state in React hooks. The messages of the active conversation
  come from the messaging client (\<open>conversationMessages\<close>, untyped objects of which the
  component reads \<open>id\<close>, \<open>content\<close>, \<open>senderAddress\<close> and \<open>sent\<close>); the
  messages the user has sent but the network has not yet returned are
  \<open>OptimisticMessage\<close>s. Strings are lists of code units, dates are their
  \<open>getTime()\<close> value in milliseconds.
\<close>

datatype Status = Unpublished | Published | Failed

type_synonym Conversation = nat

record NetMessage =
  m_id :: string
  m_content :: string
  m_senderAddress :: string
  m_sent :: int

record OptimisticMessage =
  o_id :: string
  o_content :: string
  o_senderAddress :: string
  o_status :: Status
  o_sentAt :: int

text \<open>
  An entry of \<open>allMessages\<close>: a network message as it is (its \<open>status\<close> is undefined,
  here \<open>None\<close>), or the projection of an optimistic message.
\<close>

record DisplayMessage =
  d_id :: string
  d_content :: string
  d_senderAddress :: string
  d_sent :: int
  d_status :: "Status option"

text \<open>
  The hooks of the component that the message operations read or write. \<open>client\<close> is
  whether the client is non-null, \<open>accountIdentifier\<close> is the \<open>identifier\<close> string of
  the account (or null). \<open>sendLog\<close> is not a hook: it records, in order, every call
  \<open>conversation.send(content)\<close> the component makes, so that "a transport send is
  attempted" is a property of the state.
\<close>

record State =
  accountIdentifier :: "string option"
  client :: bool
  activeConversation :: "Conversation option"
  messageContent :: string
  conversationMessages :: "NetMessage list"
  optimisticMessages :: "OptimisticMessage list"
  isSending :: bool
  sendLog :: "(Conversation \<times> string) list"

section \<open>Strings\<close>

text \<open>\<open>String.prototype.trim\<close> on code units below 256: the white space and line
  terminator characters there are TAB, LF, VT, FF, CR, SP and NBSP.\<close>

definition isWhiteSpace :: "char \<Rightarrow> bool" where
  "isWhiteSpace c = (of_char c \<in> {9, 10, 11, 12, 13, 32, 160 :: nat})"

definition trim :: "string \<Rightarrow> string" where
  "trim s = rev (dropWhile isWhiteSpace (rev (dropWhile isWhiteSpace s)))"

text \<open>The decimal rendering of an integer in a template literal.\<close>

definition digit :: "nat \<Rightarrow> char" where
  "digit d = char_of (48 + d)"

fun decimal :: "nat \<Rightarrow> string" where
  "decimal n = (if n < 10 then [digit n] else decimal (n div 10) @ [digit (n mod 10)])"

declare decimal.simps [simp del]

definition numberToString :: "int \<Rightarrow> string" where
  "numberToString i = (if i < 0 then CHR ''-'' # decimal (nat (- i)) else decimal (nat i))"

text \<open>\<^verbatim>\<open>`optimistic-${Date.now()}`\<close>\<close>

definition tempIdOf :: "int \<Rightarrow> string" where
  "tempIdOf dateNow = ''optimistic-'' @ numberToString dateNow"

section \<open>Operations\<close>

text \<open>
  Every call to the network is a suspension point whose outcome the component does not
  control. The outcome is an argument of the model: \<open>sendOk\<close> says whether
  \<open>conversation.send\<close> resolved (\<open>True\<close>) or rejected, \<open>fetched\<close> is the list
  \<open>conversation.messages()\<close> resolved to, or \<open>None\<close> when it rejected, \<open>newDm\<close> is
  the conversation \<open>client.conversations.newDm\<close> resolved to, or \<open>None\<close>. An
  operation reads the hooks of the render in which it is called, the state \<open>s\<close>, and
  is run to completion; \<open>sendMessage\<close> is also given in its two halves, before and
  after the transport call.
\<close>

text \<open>\<open>prev.map((msg) => msg.id === tempId ? { ...msg, status } : msg)\<close>\<close>

definition setStatus :: "string \<Rightarrow> Status \<Rightarrow> OptimisticMessage list \<Rightarrow> OptimisticMessage list" where
  "setStatus tempId st prev = map (\<lambda>msg. if o_id msg = tempId then msg\<lparr>o_status := st\<rparr> else msg) prev"

text \<open>\<open>loadMessages\<close>: a null conversation returns at once; a rejected fetch is caught
  and logged; otherwise the fetched history replaces \<open>conversationMessages\<close> and the
  published optimistic messages are filtered out.\<close>

definition loadMessages :: "Conversation option \<Rightarrow> NetMessage list option \<Rightarrow> State \<Rightarrow> State" where
  "loadMessages conversation fetched s =
     (case conversation of
        None \<Rightarrow> s
      | Some c \<Rightarrow>
          (case fetched of
             None \<Rightarrow> s
           | Some messages \<Rightarrow>
               s\<lparr>conversationMessages := messages,
                 optimisticMessages := filter (\<lambda>msg. o_status msg \<noteq> Published) (optimisticMessages s)\<rparr>))"

text \<open>\<open>accountIdentifier?.identifier || ""\<close>\<close>

definition senderOf :: "string option \<Rightarrow> string" where
  "senderOf a = (case a of None \<Rightarrow> [] | Some i \<Rightarrow> i)"

text \<open>
  \<open>sendMessage\<close> first suspends at the \<open>await\<close> of
  \<open>activeConversation.send\<close>. \<open>sendMessageStart\<close> is what runs before it, once
  the guard has passed: \<open>dateNow\<close> is the value of \<open>Date.now()\<close> read for the
  identifier, \<open>newDate\<close> the time of the \<open>new Date()\<close> stored in \<open>sentAt\<close>.
  \<open>sendMessageSettle\<close> is what runs after it, on the state of that moment: the rest
  of the \<open>try\<close> block (the status update and the refresh by \<open>loadMessages\<close>) when
  the send resolved, the \<open>catch\<close> block when it rejected, then the \<open>finally\<close>
  block. \<open>tempId\<close>, \<open>messageContent\<close> and \<open>activeConversation\<close> are constants of
  the call.
\<close>

definition sendMessageStart :: "int \<Rightarrow> int \<Rightarrow> Conversation \<Rightarrow> State \<Rightarrow> State" where
  "sendMessageStart dateNow newDate conv s =
     (let tempId = tempIdOf dateNow;
          optimisticMessage =
            \<lparr>o_id = tempId, o_content = messageContent s,
             o_senderAddress = senderOf (accountIdentifier s),
             o_status = Unpublished, o_sentAt = newDate\<rparr>
      in s\<lparr>isSending := True,
           optimisticMessages := optimisticMessages s @ [optimisticMessage],
           messageContent := [],
           sendLog := sendLog s @ [(conv, messageContent s)]\<rparr>)"

definition sendMessageSettle :: "string \<Rightarrow> Conversation \<Rightarrow> bool \<Rightarrow> NetMessage list option \<Rightarrow> State \<Rightarrow> State" where
  "sendMessageSettle tempId conv sendOk fetched cur =
     (let s4 = (if sendOk
                then loadMessages (Some conv) fetched
                       (cur\<lparr>optimisticMessages := setStatus tempId Published (optimisticMessages cur)\<rparr>)
                else cur\<lparr>optimisticMessages := setStatus tempId Failed (optimisticMessages cur)\<rparr>)
      in s4\<lparr>isSending := False\<rparr>)"

definition sendMessage :: "int \<Rightarrow> int \<Rightarrow> bool \<Rightarrow> NetMessage list option \<Rightarrow> State \<Rightarrow> State" where
  "sendMessage dateNow newDate sendOk fetched s =
     (case activeConversation s of
        None \<Rightarrow> s
      | Some conv \<Rightarrow>
          if trim (messageContent s) = [] \<or> isSending s then s
          else sendMessageSettle (tempIdOf dateNow) conv sendOk fetched
                 (sendMessageStart dateNow newDate conv s))"

text \<open>
  How a call of \<open>sendMessage\<close> completes, as its caller sees it. The handler is an
  async function with no \<open>throw\<close>: at the guard it executes a bare \<open>return\<close>; past
  the guard a rejection of \<open>conversation.send\<close> is caught and logged, and
  \<open>loadMessages\<close> catches its own rejection, so the \<open>try\<close> block falls through as
  well. On each path the promise resolves to \<open>undefined\<close>.
\<close>

datatype Completion = Resolved | Rejected string

definition sendMessageCompletion :: "bool \<Rightarrow> State \<Rightarrow> Completion" where
  "sendMessageCompletion sendOk s =
     (case activeConversation s of
        None \<Rightarrow> Resolved
      | Some conv \<Rightarrow>
          if trim (messageContent s) = [] \<or> isSending s then Resolved
          else if sendOk then Resolved else Resolved)"

text \<open>\<open>retryFailedMessage\<close>: the message is looked up by identifier only.\<close>

definition retryFailedMessage :: "string \<Rightarrow> bool \<Rightarrow> NetMessage list option \<Rightarrow> State \<Rightarrow> State" where
  "retryFailedMessage messageId sendOk fetched s =
     (case find (\<lambda>msg. o_id msg = messageId) (optimisticMessages s) of
        None \<Rightarrow> s
      | Some failedMessage \<Rightarrow>
          (case activeConversation s of
             None \<Rightarrow> s
           | Some conv \<Rightarrow>
               let s1 = s\<lparr>optimisticMessages := setStatus messageId Unpublished (optimisticMessages s)\<rparr>;
                   s2 = s1\<lparr>sendLog := sendLog s1 @ [(conv, o_content failedMessage)]\<rparr>
               in if sendOk
                  then loadMessages (Some conv) fetched
                         (s2\<lparr>optimisticMessages := setStatus messageId Published (optimisticMessages s2)\<rparr>)
                  else s2\<lparr>optimisticMessages := setStatus messageId Failed (optimisticMessages s2)\<rparr>))"

text \<open>\<open>cancelFailedMessage\<close>\<close>

definition cancelFailedMessage :: "string \<Rightarrow> State \<Rightarrow> State" where
  "cancelFailedMessage messageId s =
     s\<lparr>optimisticMessages := filter (\<lambda>msg. o_id msg \<noteq> messageId) (optimisticMessages s)\<rparr>"

text \<open>\<open>createNewDM\<close>: without a client it returns at once, a rejected \<open>newDm\<close> is
  caught and logged; otherwise the conversation becomes the active one and its messages
  are loaded.\<close>

definition createNewDM :: "Conversation option \<Rightarrow> NetMessage list option \<Rightarrow> State \<Rightarrow> State" where
  "createNewDM newDm fetched s =
     (if \<not> client s then s
      else case newDm of
             None \<Rightarrow> s
           | Some conversation \<Rightarrow>
               loadMessages (Some conversation) fetched (s\<lparr>activeConversation := Some conversation\<rparr>))"

text \<open>The \<open>onChange\<close> handler of the text area: \<open>setMessageContent(e.target.value)\<close>.\<close>

definition setMessageContent :: "string \<Rightarrow> State \<Rightarrow> State" where
  "setMessageContent v s = s\<lparr>messageContent := v\<rparr>"

text \<open>
  \<open>streamMessages\<close>, started by the effect of one render, on the messages the stream
  delivers. The test of the loop body reads \<open>conversationMessages\<close> and
  \<open>optimisticMessages\<close> of the render that started the effect (constants of that
  closure, the state \<open>s\<close> here); the update \<open>setConversationMessages((prev) => [...prev, message])\<close>
  appends to the current value.
\<close>

definition streamStep :: "State \<Rightarrow> State \<Rightarrow> NetMessage \<Rightarrow> State" where
  "streamStep s cur message =
     (if \<not> list_ex (\<lambda>m. m_id m = m_id message) (conversationMessages s) \<and>
         \<not> list_ex (\<lambda>m. o_id m = m_id message) (optimisticMessages s)
      then cur\<lparr>conversationMessages := conversationMessages cur @ [message]\<rparr>
      else cur)"

definition streamMessages :: "NetMessage list \<Rightarrow> State \<Rightarrow> State" where
  "streamMessages stream s =
     (if client s
      then (case activeConversation s of
              None \<Rightarrow> s
            | Some conv \<Rightarrow> foldl (streamStep s) s stream)
      else s)"

section \<open>The merged view\<close>

definition fromNet :: "NetMessage \<Rightarrow> DisplayMessage" where
  "fromNet m = \<lparr>d_id = m_id m, d_content = m_content m, d_senderAddress = m_senderAddress m,
                d_sent = m_sent m, d_status = None\<rparr>"

definition fromOptimistic :: "OptimisticMessage \<Rightarrow> DisplayMessage" where
  "fromOptimistic msg = \<lparr>d_id = o_id msg, d_content = o_content msg,
                         d_senderAddress = o_senderAddress msg,
                         d_sent = o_sentAt msg, d_status = Some (o_status msg)\<rparr>"

text \<open>
  \<open>allMessages\<close>: the network messages followed by the projected optimistic messages,
  sorted with the comparator \<open>a.sent - b.sent\<close>. \<open>Array.prototype.sort\<close> is stable, as
  is \<^const>\<open>sort_key\<close>.
\<close>

definition allMessages :: "State \<Rightarrow> DisplayMessage list" where
  "allMessages s =
     sort_key d_sent (map fromNet (conversationMessages s) @ map fromOptimistic (optimisticMessages s))"

text \<open>The order the specification describes for the view: by timestamp, then network
  messages before optimistic ones, then by identifier.\<close>

definition rank :: "DisplayMessage \<Rightarrow> nat" where
  "rank d = (case d_status d of None \<Rightarrow> 0 | Some st \<Rightarrow> 1)"

definition spec_before :: "DisplayMessage \<Rightarrow> DisplayMessage \<Rightarrow> bool" where
  "spec_before a b =
     (d_sent a < d_sent b \<or>
      (d_sent a = d_sent b \<and> (rank a < rank b \<or> (rank a = rank b \<and> d_id a \<le> d_id b))))"

definition spec_view_order :: "DisplayMessage list \<Rightarrow> bool" where
  "spec_view_order v = sorted_wrt spec_before v"


text \<open>The view renders the Retry and Cancel buttons of an entry under the test
  \<open>message.status === "failed"\<close>.\<close>

definition failedControlsShown :: "DisplayMessage \<Rightarrow> bool" where
  "failedControlsShown message = (d_status message = Some Failed)"

section \<open>Example states\<close>

definition st0 :: State where
  "st0 = \<lparr>accountIdentifier = Some ''0xA'', client = True, activeConversation = Some 1,
          messageContent = ''a'', conversationMessages = [], optimisticMessages = [],
          isSending = False, sendLog = []\<rparr>"

definition netHi :: NetMessage where
  "netHi = \<lparr>m_id = ''m1'', m_content = ''hi'', m_senderAddress = ''0xA'', m_sent = 5\<rparr>"

definition failedHi :: OptimisticMessage where
  "failedHi = \<lparr>o_id = ''optimistic-3'', o_content = ''hi'', o_senderAddress = ''0xA'',
               o_status = Failed, o_sentAt = 3\<rparr>"

definition unpubX :: OptimisticMessage where
  "unpubX = \<lparr>o_id = ''x'', o_content = ''hi'', o_senderAddress = ''0xA'',
             o_status = Unpublished, o_sentAt = 3\<rparr>"

definition pubY :: OptimisticMessage where
  "pubY = \<lparr>o_id = ''y'', o_content = ''yo'', o_senderAddress = ''0xA'',
           o_status = Published, o_sentAt = 4\<rparr>"

text \<open>
  The states of a session in which the clock reads 1000 at two sends: the send of
  \<open>a\<close> has failed (\<open>afterFailedA\<close>), the user has typed \<open>b\<close> (\<open>typedB\<close>), and
  the send of \<open>b\<close> has failed as well (\<open>twoFailed\<close>).
\<close>

definition afterFailedA :: State where
  "afterFailedA = sendMessage 1000 1000 False None st0"

definition typedB :: State where
  "typedB = setMessageContent ''b'' afterFailedA"

definition twoFailed :: State where
  "twoFailed = sendMessage 1000 1000 False None typedB"

definition failedA :: OptimisticMessage where
  "failedA = \<lparr>o_id = ''optimistic-1000'', o_content = ''a'', o_senderAddress = ''0xA'',
              o_status = Failed, o_sentAt = 1000\<rparr>"

definition failedB :: OptimisticMessage where
  "failedB = \<lparr>o_id = ''optimistic-1000'', o_content = ''b'', o_senderAddress = ''0xA'',
              o_status = Failed, o_sentAt = 1000\<rparr>"

definition unpubB :: OptimisticMessage where
  "unpubB = \<lparr>o_id = ''optimistic-1000'', o_content = ''b'', o_senderAddress = ''0xA'',
             o_status = Unpublished, o_sentAt = 1000\<rparr>"

definition netA :: NetMessage where
  "netA = \<lparr>m_id = ''m2'', m_content = ''a'', m_senderAddress = ''0xA'', m_sent = 1001\<rparr>"

definition netB :: NetMessage where
  "netB = \<lparr>m_id = ''m3'', m_content = ''b'', m_senderAddress = ''0xA'', m_sent = 1001\<rparr>"

section \<open>Facts about the operations\<close>

lemmas example_defs = st0_def netHi_def failedHi_def unpubX_def pubY_def

lemmas session_defs = afterFailedA_def typedB_def twoFailed_def failedA_def failedB_def unpubB_def
  netA_def netB_def

lemmas view_defs = allMessages_def fromNet_def fromOptimistic_def

lemmas op_defs = sendMessage_def sendMessageStart_def sendMessageSettle_def loadMessages_def
  retryFailedMessage_def cancelFailedMessage_def createNewDM_def setMessageContent_def
  streamMessages_def streamStep_def setStatus_def senderOf_def trim_def isWhiteSpace_def

lemma tempIdOf_1000: "tempIdOf 1000 = ''optimistic-1000''"
  by code_simp


subsection \<open>The identifier is an injective rendering of the clock reading\<close>

lemma of_char_digit: "d < 10 \<Longrightarrow> of_char (digit d) = 48 + d"
proof -
  assume "d < 10"
  then have "(48 + d) mod 256 = 48 + d" by (intro mod_less) arith
  then show ?thesis unfolding digit_def of_char_of .
qed

lemma digit_inj: "a < 10 \<Longrightarrow> b < 10 \<Longrightarrow> digit a = digit b \<Longrightarrow> a = b"
proof -
  assume a: "a < 10" and b: "b < 10" and e: "digit a = digit b"
  have "(of_char (digit a) :: nat) = of_char (digit b)" using e by (rule arg_cong)
  then show "a = b" unfolding of_char_digit [OF a] of_char_digit [OF b] by (rule add_left_imp_eq)
qed

lemma digit_not_minus: "d < 10 \<Longrightarrow> digit d \<noteq> CHR ''-''"
proof
  assume d: "d < 10" and e: "digit d = CHR ''-''"
  have "(of_char (digit d) :: nat) = of_char (CHR ''-'')" using e by (rule arg_cong)
  then have "48 + d = (45 :: nat)" unfolding of_char_digit [OF d] by simp
  then show False by arith
qed

lemma decimal_not_Nil: "decimal n \<noteq> []"
  by (subst decimal.simps) simp

lemma decimal_inj: "decimal m = decimal n \<Longrightarrow> m = n"
proof (induction m arbitrary: n rule: decimal.induct)
  case (1 m)
  show ?case
  proof (cases "m < 10")
    case True
    then have dm: "decimal m = [digit m]" by (subst decimal.simps) simp
    show ?thesis
    proof (cases "n < 10")
      case n: True
      then have "decimal n = [digit n]" by (subst decimal.simps) simp
      with dm "1.prems" have "digit m = digit n" by simp
      then show ?thesis using True n by (rule digit_inj [rotated 2])
    next
      case n: False
      then have "decimal n = decimal (n div 10) @ [digit (n mod 10)]" by (subst decimal.simps) simp
      with dm "1.prems" show ?thesis by (simp add: decimal_not_Nil)
    qed
  next
    case False
    then have dm: "decimal m = decimal (m div 10) @ [digit (m mod 10)]" by (subst decimal.simps) simp
    show ?thesis
    proof (cases "n < 10")
      case n: True
      then have "decimal n = [digit n]" by (subst decimal.simps) simp
      with dm "1.prems" decimal_not_Nil [of "m div 10"] show ?thesis by auto
    next
      case n: False
      then have "decimal n = decimal (n div 10) @ [digit (n mod 10)]" by (subst decimal.simps) simp
      with dm "1.prems" have e1: "decimal (m div 10) = decimal (n div 10)"
        and e2: "digit (m mod 10) = digit (n mod 10)" by simp_all
      have "m div 10 = n div 10" using "1.IH" [OF False e1] .
      moreover have "m mod 10 = n mod 10" by (rule digit_inj [OF _ _ e2]) simp_all
      ultimately show ?thesis by (metis div_mult_mod_eq)
    qed
  qed
qed

lemma decimal_no_minus: "CHR ''-'' \<notin> set (decimal n)"
proof (induction n rule: decimal.induct)
  case (1 n)
  show ?case
  proof (cases "n < 10")
    case True
    then have "decimal n = [digit n]" by (subst decimal.simps) simp
    moreover have "digit n \<noteq> CHR ''-''" using True by (rule digit_not_minus)
    ultimately show ?thesis by simp
  next
    case False
    then have "decimal n = decimal (n div 10) @ [digit (n mod 10)]" by (subst decimal.simps) simp
    moreover have "digit (n mod 10) \<noteq> CHR ''-''" by (rule digit_not_minus) simp
    ultimately show ?thesis using "1.IH" [OF False] by simp
  qed
qed

lemma numberToString_inj: "numberToString a = numberToString b \<Longrightarrow> a = b"
proof -
  assume e: "numberToString a = numberToString b"
  have hd_pos: "hd (decimal n) \<noteq> CHR ''-''" for n
    using decimal_no_minus [of n] decimal_not_Nil [of n] by (cases "decimal n") auto
  show "a = b"
  proof (cases "a < 0"; cases "b < 0")
    assume "a < 0" "b < 0"
    with e have "decimal (nat (- a)) = decimal (nat (- b))" by (simp add: numberToString_def)
    then have "nat (- a) = nat (- b)" by (rule decimal_inj)
    with \<open>a < 0\<close> \<open>b < 0\<close> show ?thesis by simp
  next
    assume "a < 0" "\<not> b < 0"
    with e have "CHR ''-'' # decimal (nat (- a)) = decimal (nat b)" by (simp add: numberToString_def)
    then have "hd (decimal (nat b)) = CHR ''-''" by (metis list.sel(1))
    with hd_pos show ?thesis by simp
  next
    assume "\<not> a < 0" "b < 0"
    with e have "decimal (nat a) = CHR ''-'' # decimal (nat (- b))" by (simp add: numberToString_def)
    then have "hd (decimal (nat a)) = CHR ''-''" by simp
    with hd_pos show ?thesis by simp
  next
    assume "\<not> a < 0" "\<not> b < 0"
    with e have "decimal (nat a) = decimal (nat b)" by (simp add: numberToString_def)
    then have "nat a = nat b" by (rule decimal_inj)
    with \<open>\<not> a < 0\<close> \<open>\<not> b < 0\<close> show ?thesis by simp
  qed
qed

lemma tempIdOf_inj: "tempIdOf a = tempIdOf b \<longleftrightarrow> a = b"
  using numberToString_inj [of a b] by (auto simp add: tempIdOf_def)

subsection \<open>Status updates, refresh, send and retry\<close>


lemma setStatus_twice: "setStatus i st (setStatus i st' xs) = setStatus i st xs"
  by (induction xs) (simp_all add: setStatus_def)

lemma map_id_setStatus: "map o_id (setStatus i st xs) = map o_id xs"
  by (induction xs) (simp_all add: setStatus_def)

lemma map_content_setStatus: "map o_content (setStatus i st xs) = map o_content xs"
  by (induction xs) (simp_all add: setStatus_def)

lemma length_setStatus: "length (setStatus i st xs) = length xs"
  by (simp add: setStatus_def)

lemma setStatus_marks:
  "list_all (\<lambda>msg. o_id msg = i \<longrightarrow> o_status msg = st) (setStatus i st xs)"
  by (induction xs) (simp_all add: setStatus_def)


lemma loadMessages_ok:
  "loadMessages (Some c) (Some messages) s =
     s\<lparr>conversationMessages := messages,
       optimisticMessages := filter (\<lambda>msg. o_status msg \<noteq> Published) (optimisticMessages s)\<rparr>"
  by (simp add: loadMessages_def)

lemma loadMessages_keeps:
  "msg \<in> set (optimisticMessages s) \<Longrightarrow> o_status msg \<noteq> Published \<Longrightarrow>
   msg \<in> set (optimisticMessages (loadMessages conversation fetched s))"
  by (cases conversation; cases fetched) (simp_all add: loadMessages_def)

lemma length_loadMessages:
  "length (optimisticMessages (loadMessages conversation fetched s)) \<le> length (optimisticMessages s)"
  by (cases conversation; cases fetched) (simp_all add: loadMessages_def)

lemma createNewDM_keeps:
  "msg \<in> set (optimisticMessages s) \<Longrightarrow> o_status msg \<noteq> Published \<Longrightarrow>
   msg \<in> set (optimisticMessages (createNewDM newDm fetched s))"
  by (cases newDm) (simp_all add: createNewDM_def loadMessages_keeps)

lemma in_allMessages:
  "msg \<in> set (optimisticMessages s) \<Longrightarrow> fromOptimistic msg \<in> set (allMessages s)"
  by (simp add: allMessages_def)


lemma sendMessage_passes:
  assumes "activeConversation s = Some conv" "trim (messageContent s) \<noteq> []" "\<not> isSending s"
  shows "sendMessage dateNow newDate sendOk fetched s =
           sendMessageSettle (tempIdOf dateNow) conv sendOk fetched (sendMessageStart dateNow newDate conv s)"
  using assms by (simp add: sendMessage_def)

lemma sendMessage_fail:
  assumes "activeConversation s = Some conv" "trim (messageContent s) \<noteq> []" "\<not> isSending s"
  shows "sendMessage dateNow newDate False fetched s =
     s\<lparr>optimisticMessages := setStatus (tempIdOf dateNow) Failed (optimisticMessages s) @
          [\<lparr>o_id = tempIdOf dateNow, o_content = messageContent s,
            o_senderAddress = senderOf (accountIdentifier s),
            o_status = Failed, o_sentAt = newDate\<rparr>],
       messageContent := [],
       sendLog := sendLog s @ [(conv, messageContent s)]\<rparr>"
  using assms
  by (simp add: sendMessage_passes [OF assms] sendMessageSettle_def sendMessageStart_def Let_def
      setStatus_def)


lemma sendMessageSettle_fail:
  "sendMessageSettle tempId conv False fetched cur =
     cur\<lparr>optimisticMessages := setStatus tempId Failed (optimisticMessages cur), isSending := False\<rparr>"
  by (simp add: sendMessageSettle_def)

lemma sendMessageCompletion_Resolved: "sendMessageCompletion sendOk s = Resolved"
  by (cases "activeConversation s") (simp_all add: sendMessageCompletion_def)

lemma sorted_index_less:
  fixes xs :: "int list"
  assumes "sorted xs" "i < length xs" "j < length xs" "xs ! i < xs ! j"
  shows "i < j"
proof (rule ccontr)
  assume "\<not> i < j"
  then have "j \<le> i" by simp
  with assms(1,2) have "xs ! j \<le> xs ! i" by (simp add: sorted_nth_mono)
  with assms(4) show False by simp
qed

lemma allMessages_cancel:
  "allMessages (cancelFailedMessage messageId s) =
     filter (\<lambda>d. d_status d = None \<or> d_id d \<noteq> messageId) (allMessages s)"
  by (simp add: view_defs cancelFailedMessage_def filter_sort filter_map comp_def)

lemma shown_controls_pending:
  assumes "d \<in> set (allMessages s)" "failedControlsShown d"
  shows "list_ex (\<lambda>msg. o_id msg = d_id d \<and> o_status msg = Failed) (optimisticMessages s)"
  using assms by (auto simp add: view_defs failedControlsShown_def list_ex_iff)

lemma retry_noop:
  "find (\<lambda>msg. o_id msg = messageId) (optimisticMessages s) = None \<or> activeConversation s = None \<Longrightarrow>
   retryFailedMessage messageId sendOk fetched s = s"
  by (cases "find (\<lambda>msg. o_id msg = messageId) (optimisticMessages s)")
     (auto simp add: retryFailedMessage_def)

lemma retry_fail:
  "find (\<lambda>msg. o_id msg = messageId) (optimisticMessages s) = Some m \<Longrightarrow>
   activeConversation s = Some conv \<Longrightarrow>
   retryFailedMessage messageId False fetched s =
     s\<lparr>optimisticMessages := setStatus messageId Failed (optimisticMessages s),
       sendLog := sendLog s @ [(conv, o_content m)]\<rparr>"
  by (simp add: retryFailedMessage_def Let_def setStatus_twice)

lemma retry_ok:
  "find (\<lambda>msg. o_id msg = messageId) (optimisticMessages s) = Some m \<Longrightarrow>
   activeConversation s = Some conv \<Longrightarrow>
   retryFailedMessage messageId True fetched s =
     loadMessages (Some conv) fetched
       (s\<lparr>optimisticMessages := setStatus messageId Published (optimisticMessages s),
          sendLog := sendLog s @ [(conv, o_content m)]\<rparr>)"
  by (cases fetched) (simp_all add: retryFailedMessage_def Let_def setStatus_twice loadMessages_def)

lemma length_retry:
  "length (optimisticMessages (retryFailedMessage messageId sendOk fetched s))
     \<le> length (optimisticMessages s)"
proof (cases "find (\<lambda>msg. o_id msg = messageId) (optimisticMessages s)")
  case None
  then show ?thesis by (simp add: retry_noop)
next
  case found: (Some m)
  show ?thesis
  proof (cases "activeConversation s")
    case None
    then show ?thesis by (simp add: retry_noop)
  next
    case (Some conv)
    show ?thesis
    proof (cases sendOk)
      case True
      have "length (optimisticMessages (retryFailedMessage messageId True fetched s))
            \<le> length (setStatus messageId Published (optimisticMessages s))"
        unfolding retry_ok [OF found Some]
        using length_loadMessages [of "Some conv" fetched
            "s\<lparr>optimisticMessages := setStatus messageId Published (optimisticMessages s),
               sendLog := sendLog s @ [(conv, o_content m)]\<rparr>"]
        by simp
      then show ?thesis using True by (simp add: length_setStatus)
    next
      case False
      then show ?thesis
        using retry_fail [OF found Some, of fetched] by (simp add: length_setStatus)
    qed
  qed
qed

section \<open>The merged view\<close>




text \<open>
  Claim C2, as the specification states it: the view is ordered by timestamp, ties put
  confirmed messages before pending ones, and then follow the lexical order of the
  identifier. Two confirmed messages with the same timestamp that the history lists as
  \<open>b\<close>, \<open>a\<close> are shown in that order.
\<close>

theorem allMessages_ties_not_lexical:
  "allMessages (st0\<lparr>conversationMessages := [netHi\<lparr>m_id := ''b''\<rparr>, netHi\<lparr>m_id := ''a''\<rparr>]\<rparr>)
     = [fromNet (netHi\<lparr>m_id := ''b''\<rparr>), fromNet (netHi\<lparr>m_id := ''a''\<rparr>)] \<and>
   \<not> spec_view_order
       (allMessages (st0\<lparr>conversationMessages := [netHi\<lparr>m_id := ''b''\<rparr>, netHi\<lparr>m_id := ''a''\<rparr>]\<rparr>))"
  by (simp add: spec_view_order_def spec_before_def rank_def view_defs example_defs)

text \<open>
  Claim C2, amended: the view is sorted by timestamp ascending, so an entry with a
  smaller timestamp stands before one with a larger timestamp. The sort is stable and
  compares timestamps only: the entries of one timestamp \<open>k\<close> keep the order they have
  in the confirmed sequence followed by the pending list, that is confirmed messages
  before pending ones, each group in its own order, with no ordering by identifier.
\<close>

theorem allMessages_sorted_stable:
  "sorted (map d_sent (allMessages s)) \<and>
   (i < length (allMessages s) \<and> j < length (allMessages s) \<and>
      d_sent (allMessages s ! i) < d_sent (allMessages s ! j) \<longrightarrow> i < j) \<and>
   filter (\<lambda>d. d_sent d = k) (allMessages s) =
     filter (\<lambda>d. d_sent d = k) (map fromNet (conversationMessages s)) @
     filter (\<lambda>d. d_sent d = k) (map fromOptimistic (optimisticMessages s))"
proof (intro conjI impI)
  show srt: "sorted (map d_sent (allMessages s))"
    by (simp add: allMessages_def)
  show "filter (\<lambda>d. d_sent d = k) (allMessages s) =
     filter (\<lambda>d. d_sent d = k) (map fromNet (conversationMessages s)) @
     filter (\<lambda>d. d_sent d = k) (map fromOptimistic (optimisticMessages s))"
    by (simp add: allMessages_def sort_key_stable)
  assume a: "i < length (allMessages s) \<and> j < length (allMessages s) \<and>
      d_sent (allMessages s ! i) < d_sent (allMessages s ! j)"
  show "i < j"
    using sorted_index_less [OF srt, of i j] a by simp
qed

theorem allMessages_sorted_stable_witness:
  "(0::nat) < length (allMessages (st0\<lparr>conversationMessages := [netHi], optimisticMessages := [failedHi]\<rparr>)) \<and>
   (1::nat) < length (allMessages (st0\<lparr>conversationMessages := [netHi], optimisticMessages := [failedHi]\<rparr>)) \<and>
   d_sent (allMessages (st0\<lparr>conversationMessages := [netHi], optimisticMessages := [failedHi]\<rparr>) ! 0)
     < d_sent (allMessages (st0\<lparr>conversationMessages := [netHi], optimisticMessages := [failedHi]\<rparr>) ! 1) \<and>
   (0::nat) < 1 \<and>
   sorted (map d_sent (allMessages (st0\<lparr>conversationMessages := [netHi], optimisticMessages := [failedHi]\<rparr>))) \<and>
   filter (\<lambda>d. d_sent d = 5)
     (allMessages (st0\<lparr>conversationMessages := [netHi], optimisticMessages := [failedHi]\<rparr>)) = [fromNet netHi]"
  using allMessages_sorted_stable
          [of "st0\<lparr>conversationMessages := [netHi], optimisticMessages := [failedHi]\<rparr>" 0 1 5]
  by (simp add: example_defs view_defs)

section \<open>Switching the conversation\<close>

text \<open>
  Claim C3, as the specification states it: attaching a new conversation empties the
  confirmed sequence and the pending set, so that no pending message of the previous
  conversation remains in the pending set or in the view. Here a failed pending message
  of conversation 1 is still pending, and shown, after conversation 2 has become the
  active one and its (empty) history has been fetched.
\<close>

theorem createNewDM_pending_survives:
  "activeConversation (st0\<lparr>optimisticMessages := [failedHi]\<rparr>) = Some 1 \<and>
   activeConversation (createNewDM (Some 2) (Some []) (st0\<lparr>optimisticMessages := [failedHi]\<rparr>)) = Some 2 \<and>
   optimisticMessages (createNewDM (Some 2) (Some []) (st0\<lparr>optimisticMessages := [failedHi]\<rparr>)) = [failedHi] \<and>
   allMessages (createNewDM (Some 2) (Some []) (st0\<lparr>optimisticMessages := [failedHi]\<rparr>))
     = [fromOptimistic failedHi]"
  by (simp add: op_defs view_defs example_defs)

text \<open>
  Claim C3, amended: with a client, \<open>createNewDM\<close> makes the conversation that
  \<open>newDm\<close> resolved to the active one. When the fetch of its history succeeds, the
  confirmed sequence is replaced by the fetched history and the pending messages with
  status Published are removed; when the fetch fails, the confirmed sequence and the
  pending set stay as they were. In both cases every pending message that is Unpublished
  or Failed stays in the pending set and in the merged view.
\<close>

theorem createNewDM_keeps_unpublished_failed:
  "client s \<Longrightarrow>
   createNewDM (Some conv) (Some messages) s =
     s\<lparr>activeConversation := Some conv, conversationMessages := messages,
       optimisticMessages := filter (\<lambda>msg. o_status msg \<noteq> Published) (optimisticMessages s)\<rparr> \<and>
   createNewDM (Some conv) None s = s\<lparr>activeConversation := Some conv\<rparr> \<and>
   (msg \<in> set (optimisticMessages s) \<and> o_status msg \<noteq> Published \<longrightarrow>
      msg \<in> set (optimisticMessages (createNewDM (Some conv) fetched s)) \<and>
      fromOptimistic msg \<in> set (allMessages (createNewDM (Some conv) fetched s)))"
proof (intro conjI impI)
  assume c: "client s"
  show "createNewDM (Some conv) (Some messages) s =
     s\<lparr>activeConversation := Some conv, conversationMessages := messages,
       optimisticMessages := filter (\<lambda>msg. o_status msg \<noteq> Published) (optimisticMessages s)\<rparr>"
    using c by (simp add: createNewDM_def loadMessages_ok)
  show "createNewDM (Some conv) None s = s\<lparr>activeConversation := Some conv\<rparr>"
    using c by (simp add: createNewDM_def loadMessages_def)
next
  assume m: "msg \<in> set (optimisticMessages s) \<and> o_status msg \<noteq> Published"
  then have m1: "msg \<in> set (optimisticMessages s)" and m2: "o_status msg \<noteq> Published"
    by simp_all
  show "msg \<in> set (optimisticMessages (createNewDM (Some conv) fetched s))"
    by (rule createNewDM_keeps [OF m1 m2])
  then show "fromOptimistic msg \<in> set (allMessages (createNewDM (Some conv) fetched s))"
    by (rule in_allMessages)
qed

theorem createNewDM_keeps_unpublished_failed_witness:
  "client (st0\<lparr>optimisticMessages := [unpubX, pubY]\<rparr>) \<and>
   unpubX \<in> set (optimisticMessages (st0\<lparr>optimisticMessages := [unpubX, pubY]\<rparr>)) \<and>
   o_status unpubX \<noteq> Published \<and>
   createNewDM (Some 2) (Some [netHi]) (st0\<lparr>optimisticMessages := [unpubX, pubY]\<rparr>) =
     st0\<lparr>activeConversation := Some 2, conversationMessages := [netHi], optimisticMessages := [unpubX]\<rparr> \<and>
   unpubX \<in> set (optimisticMessages (createNewDM (Some 2) (Some [netHi]) (st0\<lparr>optimisticMessages := [unpubX, pubY]\<rparr>))) \<and>
   fromOptimistic unpubX \<in> set (allMessages (createNewDM (Some 2) (Some [netHi]) (st0\<lparr>optimisticMessages := [unpubX, pubY]\<rparr>)))"
  using createNewDM_keeps_unpublished_failed
          [of "st0\<lparr>optimisticMessages := [unpubX, pubY]\<rparr>" 2 "[netHi]" unpubX "Some [netHi]"]
  by (simp add: example_defs op_defs view_defs)

section \<open>Sending\<close>

text \<open>
  Claim C4: a send whose transport call fails leaves a pending message with status
  Failed that stays in the pending set and in the view; a failed send is never dropped
  silently. In the session below the send of \<open>a\<close> fails with the clock reading 1000
  and the Failed message is pending and shown. The user types \<open>b\<close> and sends it, the
  clock reads 1000 again, the transport accepts \<open>b\<close> and the refresh fetches it. The
  status update of the second send goes by the shared identifier, so it marks the Failed
  \<open>a\<close> Published and the refresh removes it: \<open>a\<close> was handed to the transport once,
  was rejected, and is now neither pending nor confirmed, with no retry or cancel issued.
\<close>

theorem sendMessage_failed_entry_dropped_by_later_send:
  "optimisticMessages afterFailedA = [failedA] \<and>
   allMessages afterFailedA = [fromOptimistic failedA] \<and>
   optimisticMessages (sendMessage 1000 1000 True (Some [netB]) typedB) = [] \<and>
   conversationMessages (sendMessage 1000 1000 True (Some [netB]) typedB) = [netB] \<and>
   allMessages (sendMessage 1000 1000 True (Some [netB]) typedB) = [fromNet netB] \<and>
   sendLog (sendMessage 1000 1000 True (Some [netB]) typedB) = [(1, ''a''), (1, ''b'')]"
  by (simp add: session_defs example_defs op_defs view_defs tempIdOf_1000)

text \<open>
  What the failure path does establish. At the end of a send that passed the guard and
  whose \<open>conversation.send\<close> rejected, the pending message of the send has status
  Failed and the content sent, it is an entry of the merged view, and a history refresh
  or a change of conversation keeps it. The \<open>catch\<close> branch itself, on whatever state
  \<open>cur\<close> the component is in when the transport rejects, removes no pending message,
  changes no content, and leaves every pending message that carries the identifier of
  the send with status Failed.
\<close>

lemma sendMessage_failure_marks_failed:
  assumes "activeConversation s = Some conv" and "trim (messageContent s) \<noteq> []"
    and "\<not> isSending s"
  shows "optimisticMessages (sendMessage dateNow newDate False fetched s) =
           setStatus (tempIdOf dateNow) Failed (optimisticMessages s) @
             [\<lparr>o_id = tempIdOf dateNow, o_content = messageContent s,
               o_senderAddress = senderOf (accountIdentifier s),
               o_status = Failed, o_sentAt = newDate\<rparr>] \<and>
         fromOptimistic
             \<lparr>o_id = tempIdOf dateNow, o_content = messageContent s,
              o_senderAddress = senderOf (accountIdentifier s),
              o_status = Failed, o_sentAt = newDate\<rparr>
           \<in> set (allMessages (sendMessage dateNow newDate False fetched s)) \<and>
         sendLog (sendMessage dateNow newDate False fetched s) = sendLog s @ [(conv, messageContent s)] \<and>
         \<lparr>o_id = tempIdOf dateNow, o_content = messageContent s,
          o_senderAddress = senderOf (accountIdentifier s),
          o_status = Failed, o_sentAt = newDate\<rparr>
           \<in> set (optimisticMessages
                 (loadMessages conversation fetched' (sendMessage dateNow newDate False fetched s))) \<and>
         \<lparr>o_id = tempIdOf dateNow, o_content = messageContent s,
          o_senderAddress = senderOf (accountIdentifier s),
          o_status = Failed, o_sentAt = newDate\<rparr>
           \<in> set (optimisticMessages
                 (createNewDM newDm fetched' (sendMessage dateNow newDate False fetched s))) \<and>
         map o_id (optimisticMessages (sendMessageSettle (tempIdOf dateNow) conv False fetched cur))
           = map o_id (optimisticMessages cur) \<and>
         map o_content (optimisticMessages (sendMessageSettle (tempIdOf dateNow) conv False fetched cur))
           = map o_content (optimisticMessages cur) \<and>
         list_all (\<lambda>msg. o_id msg = tempIdOf dateNow \<longrightarrow> o_status msg = Failed)
           (optimisticMessages (sendMessageSettle (tempIdOf dateNow) conv False fetched cur))"
proof -
  define p where "p = \<lparr>o_id = tempIdOf dateNow, o_content = messageContent s,
          o_senderAddress = senderOf (accountIdentifier s),
          o_status = Failed, o_sentAt = newDate\<rparr>"
  define s' where "s' = sendMessage dateNow newDate False fetched s"
  have opt: "optimisticMessages s' = setStatus (tempIdOf dateNow) Failed (optimisticMessages s) @ [p]"
    and lg: "sendLog s' = sendLog s @ [(conv, messageContent s)]"
    unfolding s'_def p_def by (simp_all add: sendMessage_fail [OF assms])
  have mem: "p \<in> set (optimisticMessages s')" by (simp add: opt)
  have st: "o_status p \<noteq> Published" by (simp add: p_def)
  have "optimisticMessages s' = setStatus (tempIdOf dateNow) Failed (optimisticMessages s) @ [p] \<and>
        fromOptimistic p \<in> set (allMessages s') \<and>
        sendLog s' = sendLog s @ [(conv, messageContent s)] \<and>
        p \<in> set (optimisticMessages (loadMessages conversation fetched' s')) \<and>
        p \<in> set (optimisticMessages (createNewDM newDm fetched' s'))"
    using opt lg in_allMessages [OF mem] loadMessages_keeps [OF mem st] createNewDM_keeps [OF mem st]
    by simp
  then have atomic: "optimisticMessages (sendMessage dateNow newDate False fetched s) =
           setStatus (tempIdOf dateNow) Failed (optimisticMessages s) @
             [\<lparr>o_id = tempIdOf dateNow, o_content = messageContent s,
               o_senderAddress = senderOf (accountIdentifier s),
               o_status = Failed, o_sentAt = newDate\<rparr>] \<and>
         fromOptimistic
             \<lparr>o_id = tempIdOf dateNow, o_content = messageContent s,
              o_senderAddress = senderOf (accountIdentifier s),
              o_status = Failed, o_sentAt = newDate\<rparr>
           \<in> set (allMessages (sendMessage dateNow newDate False fetched s)) \<and>
         sendLog (sendMessage dateNow newDate False fetched s) = sendLog s @ [(conv, messageContent s)] \<and>
         \<lparr>o_id = tempIdOf dateNow, o_content = messageContent s,
          o_senderAddress = senderOf (accountIdentifier s),
          o_status = Failed, o_sentAt = newDate\<rparr>
           \<in> set (optimisticMessages
                 (loadMessages conversation fetched' (sendMessage dateNow newDate False fetched s))) \<and>
         \<lparr>o_id = tempIdOf dateNow, o_content = messageContent s,
          o_senderAddress = senderOf (accountIdentifier s),
          o_status = Failed, o_sentAt = newDate\<rparr>
           \<in> set (optimisticMessages
                 (createNewDM newDm fetched' (sendMessage dateNow newDate False fetched s)))"
    unfolding s'_def p_def .
  have settle: "optimisticMessages (sendMessageSettle (tempIdOf dateNow) conv False fetched cur)
                  = setStatus (tempIdOf dateNow) Failed (optimisticMessages cur)"
    by (simp add: sendMessageSettle_fail)
  show ?thesis
    unfolding settle
    using atomic map_id_setStatus [of "tempIdOf dateNow" Failed "optimisticMessages cur"]
      map_content_setStatus [of "tempIdOf dateNow" Failed "optimisticMessages cur"]
      setStatus_marks [of "tempIdOf dateNow" Failed "optimisticMessages cur"]
    by simp
qed

lemma sendMessage_failure_marks_failed_example:
  "activeConversation st0 = Some 1 \<and> trim (messageContent st0) \<noteq> [] \<and> \<not> isSending st0 \<and>
   optimisticMessages (sendMessage 1000 1001 False None st0) =
     [\<lparr>o_id = ''optimistic-1000'', o_content = ''a'', o_senderAddress = ''0xA'',
       o_status = Failed, o_sentAt = 1001\<rparr>] \<and>
   allMessages (sendMessage 1000 1001 False None st0) =
     [\<lparr>d_id = ''optimistic-1000'', d_content = ''a'', d_senderAddress = ''0xA'',
       d_sent = 1001, d_status = Some Failed\<rparr>] \<and>
   sendLog (sendMessage 1000 1001 False None st0) = [(1, ''a'')] \<and>
   optimisticMessages (loadMessages (Some 1) (Some []) (sendMessage 1000 1001 False None st0)) =
     [\<lparr>o_id = ''optimistic-1000'', o_content = ''a'', o_senderAddress = ''0xA'',
       o_status = Failed, o_sentAt = 1001\<rparr>]"
  using sendMessage_failure_marks_failed
          [of st0 1 1000 1001 None "Some 1" "Some []" "Some 2" "sendMessageStart 1000 1001 1 st0"]
  by (simp add: example_defs op_defs view_defs tempIdOf_1000)

text \<open>
  Claim C8, as the specification states it: \<open>send\<close> fails with EmptyContent when the
  content is blank. With three spaces in the text area and the Enter key pressed,
  \<open>sendMessage\<close> runs into its guard and the call resolves, exactly as the call of an
  accepted send does (the one from \<open>st0\<close>): no failure is signalled to the caller.
\<close>

theorem sendMessage_blank_signals_nothing:
  "trim (messageContent (setMessageContent ''   '' st0)) = [] \<and>
   sendMessageCompletion True (setMessageContent ''   '' st0) = Resolved \<and>
   sendMessageCompletion True (setMessageContent ''   '' st0) \<noteq> Rejected ''EmptyContent'' \<and>
   activeConversation st0 = Some 1 \<and> trim (messageContent st0) \<noteq> [] \<and> \<not> isSending st0 \<and>
   sendMessageCompletion True (setMessageContent ''   '' st0) = sendMessageCompletion True st0"
  by (simp add: sendMessageCompletion_def example_defs setMessageContent_def trim_def isWhiteSpace_def)

text \<open>
  Claim C8, amended: \<open>sendMessage\<close> called with blank content, or while a send is in
  flight (\<open>isSending\<close>), returns at its guard without signalling a failure: the call
  resolves as every call of \<open>sendMessage\<close> does. In either case the state is the one
  before the call, so no pending message has been inserted and nothing has been handed to
  the transport.
\<close>

theorem sendMessage_guard_no_effect:
  "trim (messageContent s) = [] \<or> isSending s \<Longrightarrow>
   sendMessageCompletion sendOk s = Resolved \<and>
   sendMessage dateNow newDate sendOk fetched s = s \<and>
   optimisticMessages (sendMessage dateNow newDate sendOk fetched s) = optimisticMessages s \<and>
   sendLog (sendMessage dateNow newDate sendOk fetched s) = sendLog s"
  by (cases "activeConversation s") (auto simp add: sendMessage_def sendMessageCompletion_def)

theorem sendMessage_guard_no_effect_witness:
  "trim (messageContent (setMessageContent ''   '' st0)) = [] \<and>
   sendMessageCompletion True (setMessageContent ''   '' st0) = Resolved \<and>
   sendMessage 1000 1001 True (Some [netHi]) (setMessageContent ''   '' st0) = setMessageContent ''   '' st0 \<and>
   isSending (sendMessageStart 1000 1001 1 st0) \<and>
   optimisticMessages (sendMessageStart 1000 1001 1 st0) =
     [\<lparr>o_id = ''optimistic-1000'', o_content = ''a'', o_senderAddress = ''0xA'',
       o_status = Unpublished, o_sentAt = 1001\<rparr>] \<and>
   sendMessageCompletion True (setMessageContent ''b'' (sendMessageStart 1000 1001 1 st0)) = Resolved \<and>
   sendMessage 1002 1003 True (Some [netHi]) (setMessageContent ''b'' (sendMessageStart 1000 1001 1 st0))
     = setMessageContent ''b'' (sendMessageStart 1000 1001 1 st0)"
  using sendMessage_guard_no_effect [of "setMessageContent ''   '' st0" True 1000 1001 "Some [netHi]"]
        sendMessage_guard_no_effect
          [of "setMessageContent ''b'' (sendMessageStart 1000 1001 1 st0)" True 1002 1003 "Some [netHi]"]
  by (simp add: example_defs setMessageContent_def sendMessageStart_def senderOf_def trim_def
      isWhiteSpace_def tempIdOf_1000)

section \<open>Cancel and retry\<close>

text \<open>
  \<open>cancelFailedMessage\<close> filters the pending list by identifier; the view renders its
  only call under the test for status failed. So the view loses exactly its pending
  entries with the identifier given, and a cancel issued from an entry of the view names
  a pending message that is Failed, an entry that is gone afterwards.
\<close>

lemma cancelFailedMessage_removes_by_id:
  "cancelFailedMessage messageId s =
     s\<lparr>optimisticMessages := filter (\<lambda>msg. o_id msg \<noteq> messageId) (optimisticMessages s)\<rparr> \<and>
   allMessages (cancelFailedMessage messageId s) =
     filter (\<lambda>d. d_status d = None \<or> d_id d \<noteq> messageId) (allMessages s) \<and>
   (d \<in> set (allMessages s) \<and> failedControlsShown d \<longrightarrow>
      list_ex (\<lambda>msg. o_id msg = d_id d \<and> o_status msg = Failed) (optimisticMessages s) \<and>
      d \<notin> set (allMessages (cancelFailedMessage (d_id d) s)))"
proof (intro conjI impI)
  show "cancelFailedMessage messageId s =
     s\<lparr>optimisticMessages := filter (\<lambda>msg. o_id msg \<noteq> messageId) (optimisticMessages s)\<rparr>"
    by (simp add: cancelFailedMessage_def)
  show "allMessages (cancelFailedMessage messageId s) =
     filter (\<lambda>d. d_status d = None \<or> d_id d \<noteq> messageId) (allMessages s)"
    by (rule allMessages_cancel)
next
  assume a: "d \<in> set (allMessages s) \<and> failedControlsShown d"
  then have a1: "d \<in> set (allMessages s)" and a2: "failedControlsShown d"
    by simp_all
  show "list_ex (\<lambda>msg. o_id msg = d_id d \<and> o_status msg = Failed) (optimisticMessages s)"
    by (rule shown_controls_pending [OF a1 a2])
  show "d \<notin> set (allMessages (cancelFailedMessage (d_id d) s))"
    using a2 by (simp add: allMessages_cancel failedControlsShown_def)
qed

text \<open>
  Claim C5: cancel removes a pending message that is Failed and does not remove one that
  is Unpublished or Published. In the session below the send of \<open>a\<close> has failed with
  the clock reading 1000, the user has typed \<open>b\<close> and sent it, and the clock has read
  1000 again: the send of \<open>b\<close> is in flight, its pending message Unpublished under the
  identifier of the Failed \<open>a\<close>. The view shows the Cancel button on \<open>a\<close>. Pressing
  it removes \<open>a\<close> and the Unpublished \<open>b\<close> with it, from the pending set and from
  the view.
\<close>

theorem cancelFailedMessage_removes_in_flight_sibling:
  "activeConversation typedB = Some 1 \<and> trim (messageContent typedB) \<noteq> [] \<and> \<not> isSending typedB \<and>
   optimisticMessages (sendMessageStart 1000 1000 1 typedB) = [failedA, unpubB] \<and>
   o_status unpubB = Unpublished \<and>
   fromOptimistic failedA \<in> set (allMessages (sendMessageStart 1000 1000 1 typedB)) \<and>
   failedControlsShown (fromOptimistic failedA) \<and>
   optimisticMessages
     (cancelFailedMessage (d_id (fromOptimistic failedA)) (sendMessageStart 1000 1000 1 typedB)) = [] \<and>
   allMessages
     (cancelFailedMessage (d_id (fromOptimistic failedA)) (sendMessageStart 1000 1000 1 typedB)) = []"
  by (simp add: session_defs example_defs op_defs view_defs failedControlsShown_def tempIdOf_1000)

text \<open>
  \<open>retryFailedMessage\<close> looks the pending message up by identifier; the view renders
  its only call under the test for status failed. When no pending message has the
  identifier, or no conversation is active, it returns with the state as it was.
  Otherwise it hands the content of the first pending message with that identifier to
  the transport and then does what a send does: on success it marks the messages of that
  identifier Published and refreshes the history, on failure it marks them Failed. A
  failing retry leaves the list of pending identifiers as it was, and no retry ever makes
  the pending list longer.
\<close>

lemma retryFailedMessage_by_id:
  "(find (\<lambda>msg. o_id msg = messageId) (optimisticMessages s) = None \<or> activeConversation s = None \<longrightarrow>
      retryFailedMessage messageId sendOk fetched s = s) \<and>
   (find (\<lambda>msg. o_id msg = messageId) (optimisticMessages s) = Some m \<and>
    activeConversation s = Some conv \<longrightarrow>
      retryFailedMessage messageId False fetched s =
        s\<lparr>optimisticMessages := setStatus messageId Failed (optimisticMessages s),
          sendLog := sendLog s @ [(conv, o_content m)]\<rparr> \<and>
      retryFailedMessage messageId True fetched s =
        loadMessages (Some conv) fetched
          (s\<lparr>optimisticMessages := setStatus messageId Published (optimisticMessages s),
             sendLog := sendLog s @ [(conv, o_content m)]\<rparr>) \<and>
      map o_id (optimisticMessages (retryFailedMessage messageId False fetched s))
        = map o_id (optimisticMessages s) \<and>
      list_all (\<lambda>msg. o_id msg = messageId \<longrightarrow> o_status msg = Failed)
        (optimisticMessages (retryFailedMessage messageId False fetched s))) \<and>
   length (optimisticMessages (retryFailedMessage messageId sendOk fetched s))
     \<le> length (optimisticMessages s)"
proof (intro conjI impI)
  assume "find (\<lambda>msg. o_id msg = messageId) (optimisticMessages s) = None \<or> activeConversation s = None"
  then show "retryFailedMessage messageId sendOk fetched s = s" by (rule retry_noop)
next
  show "length (optimisticMessages (retryFailedMessage messageId sendOk fetched s))
     \<le> length (optimisticMessages s)"
    by (rule length_retry)
next
  assume a: "find (\<lambda>msg. o_id msg = messageId) (optimisticMessages s) = Some m \<and>
    activeConversation s = Some conv"
  then have a1: "find (\<lambda>msg. o_id msg = messageId) (optimisticMessages s) = Some m"
    and a2: "activeConversation s = Some conv"
    by simp_all
  show f: "retryFailedMessage messageId False fetched s =
        s\<lparr>optimisticMessages := setStatus messageId Failed (optimisticMessages s),
          sendLog := sendLog s @ [(conv, o_content m)]\<rparr>"
    by (rule retry_fail [OF a1 a2])
  show "retryFailedMessage messageId True fetched s =
        loadMessages (Some conv) fetched
          (s\<lparr>optimisticMessages := setStatus messageId Published (optimisticMessages s),
             sendLog := sendLog s @ [(conv, o_content m)]\<rparr>)"
    by (rule retry_ok [OF a1 a2])
  have opt: "optimisticMessages (retryFailedMessage messageId False fetched s) =
             setStatus messageId Failed (optimisticMessages s)"
    unfolding f by simp
  show "map o_id (optimisticMessages (retryFailedMessage messageId False fetched s))
        = map o_id (optimisticMessages s)"
    unfolding opt by (rule map_id_setStatus)
  show "list_all (\<lambda>msg. o_id msg = messageId \<longrightarrow> o_status msg = Failed)
        (optimisticMessages (retryFailedMessage messageId False fetched s))"
    unfolding opt by (rule setStatus_marks)
qed

text \<open>
  Claim C6: retry takes the same pending message back to Unpublished and attempts its
  transport send again, with the transitions of a send. In the session below the sends
  of \<open>a\<close> and of \<open>b\<close> have both failed with the clock reading 1000, so both pending
  messages are Failed under one identifier, and the view shows the Retry button on each.
  Pressing Retry on \<open>b\<close> hands \<open>a\<close> to the transport, the content of the first
  pending message with that identifier. When the transport accepts it and the history is
  refreshed, both pending messages are removed, and \<open>b\<close> has been handed to the
  transport only by its first, rejected send; when the transport rejects it, both are
  Failed again and \<open>b\<close> has still not been attempted a second time.
\<close>

theorem retryFailedMessage_resends_sibling_content:
  "optimisticMessages twoFailed = [failedA, failedB] \<and>
   sendLog twoFailed = [(1, ''a''), (1, ''b'')] \<and>
   fromOptimistic failedB \<in> set (allMessages twoFailed) \<and>
   failedControlsShown (fromOptimistic failedB) \<and>
   sendLog (retryFailedMessage (d_id (fromOptimistic failedB)) True (Some [netA]) twoFailed)
     = [(1, ''a''), (1, ''b''), (1, ''a'')] \<and>
   optimisticMessages (retryFailedMessage (d_id (fromOptimistic failedB)) True (Some [netA]) twoFailed) = [] \<and>
   allMessages (retryFailedMessage (d_id (fromOptimistic failedB)) True (Some [netA]) twoFailed)
     = [fromNet netA] \<and>
   sendLog (retryFailedMessage (d_id (fromOptimistic failedB)) False None twoFailed)
     = [(1, ''a''), (1, ''b''), (1, ''a'')] \<and>
   optimisticMessages (retryFailedMessage (d_id (fromOptimistic failedB)) False None twoFailed)
     = [failedA, failedB]"
  by (simp add: session_defs example_defs op_defs view_defs failedControlsShown_def tempIdOf_1000)

section \<open>Identifiers of pending messages\<close>

text \<open>
  Claim C7: two sends of one session get distinct identifiers. The identifier is
  \<open>optimistic-\<close> followed by the reading of the wall clock in milliseconds. Two sends
  for which \<open>Date.now()\<close> returns the same value, here 1000 (the first send has failed
  and the user has typed \<open>b\<close>), both pass the guard and leave two pending messages with
  the same identifier; a cancel of that identifier then removes both. The identifier is
  an injective rendering of the clock reading (\<open>tempIdOf_inj\<close>), so two sends get the
  same identifier exactly when they read the same value of the clock.
\<close>

theorem sendMessage_same_clock_same_id:
  "map o_id (optimisticMessages
     (sendMessage 1000 1000 False None (setMessageContent ''b'' (sendMessage 1000 1000 False None st0))))
   = [''optimistic-1000'', ''optimistic-1000''] \<and>
   map o_content (optimisticMessages
     (sendMessage 1000 1000 False None (setMessageContent ''b'' (sendMessage 1000 1000 False None st0))))
   = [''a'', ''b''] \<and>
   optimisticMessages (cancelFailedMessage ''optimistic-1000''
     (sendMessage 1000 1000 False None (setMessageContent ''b'' (sendMessage 1000 1000 False None st0))))
   = []"
  by (simp add: example_defs op_defs tempIdOf_1000)

section \<open>The message stream\<close>

text \<open>
  Claim C9: a message delivered twice by the stream is held once. The loop of
  \<open>streamMessages\<close> tests the identifier of each delivered message against the
  messages of the render that started it, not against what the loop has appended since.
  A message with a new identifier that the stream delivers twice is appended twice, and
  the view shows it twice.
\<close>

theorem streamMessages_appends_twice:
  "conversationMessages (streamMessages [netHi, netHi] st0) = [netHi, netHi] \<and>
   allMessages (streamMessages [netHi, netHi] st0) = [fromNet netHi, fromNet netHi]"
  by (simp add: example_defs op_defs view_defs)

section \<open>History refresh\<close>

text \<open>
  Claim C10: after a successful history refresh (a conversation is given and the fetch
  resolves) the pending set is the earlier pending set without its Published messages.
  The fetched history plays no part in that: no pending message with status Published
  remains, in the pending set or in the view, whatever the history holds.
\<close>

theorem loadMessages_removes_published:
  "optimisticMessages (loadMessages (Some conv) (Some messages) s) =
     filter (\<lambda>msg. o_status msg \<noteq> Published) (optimisticMessages s) \<and>
   filter (\<lambda>msg. o_status msg = Published)
     (optimisticMessages (loadMessages (Some conv) (Some messages) s)) = [] \<and>
   filter (\<lambda>d. d_status d = Some Published)
     (allMessages (loadMessages (Some conv) (Some messages) s)) = []"
proof (intro conjI)
  show "optimisticMessages (loadMessages (Some conv) (Some messages) s) =
     filter (\<lambda>msg. o_status msg \<noteq> Published) (optimisticMessages s)"
    by (simp add: loadMessages_ok)
  show "filter (\<lambda>msg. o_status msg = Published)
     (optimisticMessages (loadMessages (Some conv) (Some messages) s)) = []"
    by (simp add: loadMessages_ok filter_empty_conv)
  show "filter (\<lambda>d. d_status d = Some Published)
     (allMessages (loadMessages (Some conv) (Some messages) s)) = []"
    by (simp add: loadMessages_ok view_defs filter_sort filter_map comp_def filter_empty_conv)
qed

theorem loadMessages_removes_published_witness:
  "optimisticMessages (loadMessages (Some 1) (Some []) (st0\<lparr>optimisticMessages := [unpubX, pubY, failedHi]\<rparr>))
     = [unpubX, failedHi] \<and>
   optimisticMessages (loadMessages (Some 1) (Some [netHi]) (st0\<lparr>optimisticMessages := [unpubX, pubY, failedHi]\<rparr>))
     = [unpubX, failedHi]"
  using loadMessages_removes_published [of 1 "[]" "st0\<lparr>optimisticMessages := [unpubX, pubY, failedHi]\<rparr>"]
        loadMessages_removes_published [of 1 "[netHi]" "st0\<lparr>optimisticMessages := [unpubX, pubY, failedHi]\<rparr>"]
  by (simp add: example_defs)

end
